theory Spec2Isabelle
  imports Main
begin

section \<open>Numbers as text\<close>

text \<open>
  A template literal such as \<^verbatim>\<open>`${days} day`\<close> converts the number to its decimal
  text.  The numbers of this development are integers: \<^verbatim>\<open>Math.floor\<close> results,
  \<^verbatim>\<open>parseInt\<close> results and millisecond clock readings.
\<close>

definition digit_char :: "nat \<Rightarrow> char" where
  "digit_char d =
     (if d = 0 then CHR ''0'' else if d = 1 then CHR ''1'' else if d = 2 then CHR ''2''
      else if d = 3 then CHR ''3'' else if d = 4 then CHR ''4'' else if d = 5 then CHR ''5''
      else if d = 6 then CHR ''6'' else if d = 7 then CHR ''7'' else if d = 8 then CHR ''8''
      else CHR ''9'')"

fun nat_to_string :: "nat \<Rightarrow> string" where
  "nat_to_string n =
     (if n < 10 then [digit_char n] else nat_to_string (n div 10) @ [digit_char (n mod 10)])"

declare nat_to_string.simps [simp del]

definition number_to_string :: "int \<Rightarrow> string" where
  "number_to_string i =
     (if i < 0 then CHR ''-'' # nat_to_string (nat (- i)) else nat_to_string (nat i))"

section \<open>Relative timestamps\<close>

text \<open>
  \<^verbatim>\<open>formatTimeDifference(diff)\<close>, main.js lines 202--212.  \<^verbatim>\<open>Math.floor(x / k)\<close> on
  an integer \<open>x\<close> is the floor division \<open>x div k\<close> of \<open>int\<close>, also for a negative
  \<open>x\<close>.
\<close>

definition formatTimeDifference :: "int \<Rightarrow> string" where
  "formatTimeDifference diff =
     (let seconds = diff div 1000;
          minutes = seconds div 60;
          hours = minutes div 60;
          days = hours div 24
      in if days > 0 then
           number_to_string days @ '' day'' @ (if days \<noteq> 1 then ''s'' else '''') @ '' ago''
         else if hours > 0 then
           number_to_string hours @ '' hour'' @ (if hours \<noteq> 1 then ''s'' else '''') @ '' ago''
         else if minutes > 0 then
           number_to_string minutes @ '' minute'' @ (if minutes \<noteq> 1 then ''s'' else '''')
             @ '' ago''
         else ''Just now'')"

section \<open>Theme preference\<close>

text \<open>
  The theme functions touch two places of the page: \<^verbatim>\<open>localStorage\<close>, a dictionary
  from keys to strings, and the \<^verbatim>\<open>data-theme\<close> attribute of the root element, absent
  (\<open>None\<close>, read as \<^verbatim>\<open>null\<close> by \<^verbatim>\<open>getAttribute\<close>) or a string.  Both
  \<^verbatim>\<open>setAttribute\<close> and \<^verbatim>\<open>setItem\<close> convert their argument to a string, so the
  argument of \<^verbatim>\<open>setTheme\<close> is a string here.  Storage is taken to be available and
  not full.
\<close>

record page =
  localStorage :: "string \<rightharpoonup> string"
  data_theme :: "string option"

definition theme_key :: string where
  "theme_key = ''cms-theme''"

text \<open>\<^verbatim>\<open>setTheme(theme)\<close>, lines 244--247.\<close>

definition setTheme :: "string \<Rightarrow> page \<Rightarrow> page" where
  "setTheme theme p =
     p\<lparr>data_theme := Some theme, localStorage := (localStorage p)(theme_key \<mapsto> theme)\<rparr>"

text \<open>
  \<^verbatim>\<open>initializeTheme()\<close>, lines 234--239.  \<^verbatim>\<open>if (savedTheme)\<close> passes for a string
  that is not empty; \<^verbatim>\<open>getItem\<close> gives \<^verbatim>\<open>null\<close> for a key that is not stored.
\<close>

definition initializeTheme :: "page \<Rightarrow> page" where
  "initializeTheme p =
     (case localStorage p theme_key of
        None \<Rightarrow> p
      | Some savedTheme \<Rightarrow> if savedTheme \<noteq> [] then setTheme savedTheme p else p)"

text \<open>\<^verbatim>\<open>toggleTheme()\<close>, lines 252--256.\<close>

definition toggleTheme :: "page \<Rightarrow> page" where
  "toggleTheme p =
     (let currentTheme = data_theme p;
          newTheme = (if currentTheme = Some ''dark'' then ''light'' else ''dark'')
      in setTheme newTheme p)"

section \<open>Timers of the browser\<close>

text \<open>
  \<^verbatim>\<open>setTimeout\<close> registers a callback under a fresh positive handle, to run once when
  its delay has passed; \<^verbatim>\<open>clearTimeout\<close> drops the registration of a handle and does
  nothing for any other value.  Time is the millisecond clock.  The environment is shared by
  three models below (the page with its notifications, a debounced wrapper, a throttled
  wrapper), which extend this record by their own variables; \<open>'c\<close> is the type of the
  callbacks a model registers.
\<close>

datatype 'c timer = Timer (handle: nat) (due: nat) (callback: 'c)

record 'c timer_env =
  now :: nat
  next_handle :: nat
  timeouts :: "'c timer list"

definition setTimeout ::
  "'c \<Rightarrow> nat \<Rightarrow> ('c, 'm) timer_env_scheme \<Rightarrow> nat \<times> ('c, 'm) timer_env_scheme" where
  "setTimeout cb delay w =
     (next_handle w,
      w\<lparr>timeouts := timeouts w @ [Timer (next_handle w) (now w + delay) cb],
        next_handle := Suc (next_handle w)\<rparr>)"

definition clearTimeout ::
  "nat option \<Rightarrow> ('c, 'm) timer_env_scheme \<Rightarrow> ('c, 'm) timer_env_scheme" where
  "clearTimeout h w =
     (case h of
        None \<Rightarrow> w
      | Some i \<Rightarrow> w\<lparr>timeouts := filter (\<lambda>x. handle x \<noteq> i) (timeouts w)\<rparr>)"

text \<open>
  The clock moves to \<open>t\<close>: every registered callback whose time has come by then runs, the
  earlier due first and the earlier registered first among equals, each at its due time.
  The callbacks of this program register no timer and clear none, so the ones to run are
  fixed when the clock starts to move.  \<open>run\<close> is the model's interpretation of a callback.
\<close>

definition advance ::
  "('c \<Rightarrow> ('c, 'm) timer_env_scheme \<Rightarrow> ('c, 'm) timer_env_scheme) \<Rightarrow> nat \<Rightarrow>
   ('c, 'm) timer_env_scheme \<Rightarrow> ('c, 'm) timer_env_scheme" where
  "advance run t w =
     (let ready = sort_key due (filter (\<lambda>x. due x \<le> t) (timeouts w));
          w1 = w\<lparr>timeouts := filter (\<lambda>x. \<not> due x \<le> t) (timeouts w)\<rparr>;
          w2 = fold (\<lambda>x v. run (callback x) (v\<lparr>now := max (now v) (due x)\<rparr>)) ready w1
      in w2\<lparr>now := max (now w2) t\<rparr>)"

text \<open>\<^verbatim>\<open>if (h)\<close> on a variable holding a handle or \<^verbatim>\<open>undefined\<close>.\<close>

definition truthy_handle :: "nat option \<Rightarrow> bool" where
  "truthy_handle h = (case h of None \<Rightarrow> False | Some i \<Rightarrow> i \<noteq> 0)"

section \<open>The page: notifications and auto-refresh\<close>

text \<open>
  The children of \<^verbatim>\<open>document.body\<close> that this file creates are the notification
  \<^verbatim>\<open>div\<close>s and the helper \<^verbatim>\<open>textarea\<close> of the legacy copy.  A notification keeps its
  class name (built from the \<^verbatim>\<open>type\<close> argument) and the message placed in its markup.
\<close>

datatype dom_node =
  Alert (node_id: nat) (className: string) (content: string)
| TextArea (node_id: nat) (text_value: string)

text \<open>An element matched by \<^verbatim>\<open>[data-auto-refresh]\<close> has the attribute, with some value.\<close>

record element =
  elem_id :: nat
  autoRefresh :: "string option"

text \<open>
  The timeouts of the page are those of \<^verbatim>\<open>showNotification\<close>, the only ones whose
  handle the script keeps: a callback removes the notification it closes over.
\<close>

datatype callback = RemoveNotification nat

record interval =
  interval_handle :: nat
  period :: int
  target :: nat

record world = "callback timer_env" +
  intervals :: "interval list"
  autoRefreshInterval :: "nat option"
  notificationTimeout :: "nat option"
  next_node :: nat
  body :: "dom_node list"
  elements :: "element list"
  console :: "string list"

text \<open>
  The callback of \<^verbatim>\<open>showNotification\<close>, lines 278--282: the notification leaves the
  document if it is still in it.
\<close>

fun run_callback :: "callback \<Rightarrow> world \<Rightarrow> world" where
  "run_callback (RemoveNotification n) w = w\<lparr>body := filter (\<lambda>x. node_id x \<noteq> n) (body w)\<rparr>"

definition pass_time :: "nat \<Rightarrow> world \<Rightarrow> world" where
  "pass_time t w = advance run_callback t w"

text \<open>
  \<^verbatim>\<open>showNotification(message, type = 'info', duration = 3000)\<close>, lines 261--283.  An
  argument left out is \<open>None\<close> and takes its default.
\<close>

definition showNotification :: "string \<Rightarrow> string option \<Rightarrow> nat option \<Rightarrow> world \<Rightarrow> world" where
  "showNotification message type_arg duration_arg w =
     (let type = (case type_arg of None \<Rightarrow> ''info'' | Some x \<Rightarrow> x);
          duration = (case duration_arg of None \<Rightarrow> 3000 | Some d \<Rightarrow> d);
          w1 = (if truthy_handle (notificationTimeout w)
                then clearTimeout (notificationTimeout w) w else w);
          notification = Alert (next_node w1)
             (''alert alert-'' @ type @ '' alert-dismissible fade show position-fixed'') message;
          w2 = w1\<lparr>next_node := Suc (next_node w1), body := body w1 @ [notification]\<rparr>;
          (h, w3) = setTimeout (RemoveNotification (node_id notification)) duration w2
      in w3\<lparr>notificationTimeout := Some h\<rparr>)"

subsection \<open>Auto-refresh\<close>

text \<open>
  \<^verbatim>\<open>parseInt(string)\<close> with no radix: leading white space is skipped, a sign is read,
  a prefix \<^verbatim>\<open>0x\<close> or \<^verbatim>\<open>0X\<close> selects base 16 (base 10 otherwise), and the longest run
  of digits of the base is the number; with no digit the result is \<^verbatim>\<open>NaN\<close>, here
  \<open>None\<close>.  The result is the exact integer, which is what the browser computes up to
  \<open>2 ^ 53\<close>; \<^verbatim>\<open>-0\<close> is \<open>0\<close>.  White space is the ASCII part of the language's.
\<close>

definition is_space :: "char \<Rightarrow> bool" where
  "is_space c = (of_char c \<in> {9, 10, 11, 12, 13, 32 :: nat})"

definition digit_value :: "char \<Rightarrow> nat option" where
  "digit_value c =
     (let n = (of_char c :: nat) in
      if 48 \<le> n \<and> n \<le> 57 then Some (n - 48)
      else if 97 \<le> n \<and> n \<le> 122 then Some (n - 87)
      else if 65 \<le> n \<and> n \<le> 90 then Some (n - 55)
      else None)"

definition is_digit_of :: "nat \<Rightarrow> char \<Rightarrow> bool" where
  "is_digit_of radix c = (case digit_value c of None \<Rightarrow> False | Some d \<Rightarrow> d < radix)"

definition digits_value :: "nat \<Rightarrow> string \<Rightarrow> nat" where
  "digits_value radix ds =
     foldl (\<lambda>acc c. acc * radix + (case digit_value c of None \<Rightarrow> 0 | Some d \<Rightarrow> d)) 0 ds"

definition strip_sign :: "string \<Rightarrow> int \<times> string" where
  "strip_sign s =
     (case s of
        c # rest \<Rightarrow> if c = CHR ''-'' then (- 1, rest)
                    else if c = CHR ''+'' then (1, rest) else (1, s)
      | [] \<Rightarrow> (1, s))"

definition has_hex_prefix :: "string \<Rightarrow> bool" where
  "has_hex_prefix s = (take 2 s = ''0x'' \<or> take 2 s = ''0X'')"

definition strip_prefix :: "string \<Rightarrow> nat \<times> string" where
  "strip_prefix s = (if has_hex_prefix s then (16, drop 2 s) else (10, s))"

definition parseInt :: "string \<Rightarrow> int option" where
  "parseInt input =
     (let (sign, s1) = strip_sign (dropWhile is_space input);
          (radix, s2) = strip_prefix s1;
          z = takeWhile (is_digit_of radix) s2
      in if z = [] then None else Some (sign * int (digits_value radix z)))"

text \<open>
  \<^verbatim>\<open>setInterval(callback, interval)\<close> as \<^verbatim>\<open>setupAutoRefresh\<close> calls it: the callback
  refreshes the element \<open>e\<close>; the handle it returns comes from the same counter as those of
  \<^verbatim>\<open>setTimeout\<close>.  The period is recorded as it is passed.  The ticks of an interval
  only change the opacity of their element, which nothing here observes, so the clock does
  not run them.
\<close>

definition setInterval :: "nat \<Rightarrow> int \<Rightarrow> world \<Rightarrow> nat \<times> world" where
  "setInterval e ms w =
     (next_handle w,
      w\<lparr>intervals := intervals w @ [\<lparr>interval_handle = next_handle w, period = ms, target = e\<rparr>],
        next_handle := Suc (next_handle w)\<rparr>)"

text \<open>
  \<^verbatim>\<open>setupAutoRefresh()\<close>, lines 41--53.  \<^verbatim>\<open>element.dataset.autoRefresh\<close> is the
  value of the attribute, a string, or \<^verbatim>\<open>undefined\<close> without the attribute, which
  \<^verbatim>\<open>parseInt\<close> reads as the text \<^verbatim>\<open>undefined\<close>.  \<^verbatim>\<open>parseInt(x) || 30000\<close> is 30000
  when the left side is \<^verbatim>\<open>NaN\<close> or zero.  \<open>start_refresh\<close> is the body of the
  \<^verbatim>\<open>forEach\<close>.  The value \<^verbatim>\<open>setInterval\<close> returns is dropped, and the
  variable \<^verbatim>\<open>autoRefreshInterval\<close> of line 7 is assigned nowhere in the file.
\<close>

definition refresh_interval :: "string option \<Rightarrow> int" where
  "refresh_interval a =
     (case parseInt (case a of None \<Rightarrow> ''undefined'' | Some x \<Rightarrow> x) of
        None \<Rightarrow> 30000
      | Some n \<Rightarrow> if n = 0 then 30000 else n)"

definition refreshElements :: "world \<Rightarrow> element list" where
  "refreshElements w = filter (\<lambda>e. autoRefresh e \<noteq> None) (elements w)"

definition start_refresh :: "element \<Rightarrow> world \<Rightarrow> world" where
  "start_refresh element v =
     (let interval = refresh_interval (autoRefresh element)
      in snd (setInterval (elem_id element) interval v))"

definition setupAutoRefresh :: "world \<Rightarrow> world" where
  "setupAutoRefresh w = fold start_refresh (refreshElements w) w"

text \<open>The page when the script has just been loaded.\<close>

definition fresh_world :: "element list \<Rightarrow> world" where
  "fresh_world es =
     \<lparr>now = 0, next_handle = 1, timeouts = [], intervals = [], autoRefreshInterval = None,
      notificationTimeout = None, next_node = 0, body = [], elements = es, console = []\<rparr>"

text \<open>
  What happens to the page over time, as far as the timer variables are concerned: a call
  of \<^verbatim>\<open>showNotification\<close>, a call of \<^verbatim>\<open>setupAutoRefresh\<close>, or the clock moving on.
\<close>

datatype event =
  ShowNotification string "string option" "nat option"
| SetupAutoRefresh
| PassTime nat

fun step :: "event \<Rightarrow> world \<Rightarrow> world" where
  "step (ShowNotification message type_arg duration_arg) w =
     showNotification message type_arg duration_arg w"
| "step SetupAutoRefresh w = setupAutoRefresh w"
| "step (PassTime t) w = pass_time t w"

definition run_events :: "event list \<Rightarrow> world \<Rightarrow> world" where
  "run_events evs w = fold step evs w"

section \<open>Requests\<close>

text \<open>
  A settled promise is fulfilled with a value or rejected with an error.  What the network
  does is not the program's: \<^verbatim>\<open>fetch\<close> is a parameter, giving for a URL and the options
  either the error it rejects with or a response; a response carries its \<^verbatim>\<open>ok\<close>
  flag, its status and what \<^verbatim>\<open>response.json()\<close> settles to (the parsed body, or the
  error of a body that is not JSON).
\<close>

datatype js_error = Error string | TypeError string | SyntaxError string

datatype 'a promise = Resolved 'a | Rejected js_error

record 'j response =
  ok :: bool
  status :: nat
  json :: "js_error + 'j"

datatype option_value = Text string | Headers "(string \<times> string) list"

type_synonym options = "string \<rightharpoonup> option_value"

definition defaultOptions :: options where
  "defaultOptions =
     [''method'' \<mapsto> Text ''GET'',
      ''headers'' \<mapsto> Headers [(''Content-Type'', ''application/json'')]]"

definition error_text :: "js_error \<Rightarrow> string" where
  "error_text e =
     (case e of Error m \<Rightarrow> ''Error: '' @ m | TypeError m \<Rightarrow> ''TypeError: '' @ m
      | SyntaxError m \<Rightarrow> ''SyntaxError: '' @ m)"

text \<open>
  \<^verbatim>\<open>makeRequest(url, options = {})\<close>, lines 340--362.  The \<^verbatim>\<open>then\<close> handler runs on
  a response, the \<^verbatim>\<open>catch\<close> handler on every rejection before it: of \<^verbatim>\<open>fetch\<close>, of
  the \<^verbatim>\<open>throw\<close> and of \<^verbatim>\<open>response.json()\<close>.  The handlers run on the page as it is
  when the request settles.
\<close>

definition makeRequest ::
  "(string \<Rightarrow> options \<Rightarrow> js_error + 'j response) \<Rightarrow> string \<Rightarrow> options \<Rightarrow> world \<Rightarrow>
   'j promise \<times> world" where
  "makeRequest fetch url opts w =
     (let finalOptions = defaultOptions ++ opts;
          parsed =
            (case fetch url finalOptions of
               Inl e \<Rightarrow> Rejected e
             | Inr response \<Rightarrow>
                 if \<not> ok response then
                   Rejected (Error (''HTTP error! status: '' @ number_to_string (int (status response))))
                 else (case json response of Inl e \<Rightarrow> Rejected e | Inr v \<Rightarrow> Resolved v))
      in case parsed of
           Resolved v \<Rightarrow> (Resolved v, w)
         | Rejected error \<Rightarrow>
             (Rejected error,
              showNotification ''Request failed. Please try again.'' (Some ''danger'') None
                (w\<lparr>console := console w @ [''Request failed: '' @ error_text error]\<rparr>)))"

section \<open>Clipboard\<close>

text \<open>
  The browser's part: \<^verbatim>\<open>navigator.clipboard\<close> is absent (\<open>None\<close>) or its
  \<^verbatim>\<open>writeText\<close> settles, fulfilled or rejected; \<^verbatim>\<open>document.execCommand('copy')\<close>
  returns \<^verbatim>\<open>true\<close> when the copy was made, returns \<^verbatim>\<open>false\<close> when the command is
  not supported or not enabled, or throws.
\<close>

datatype exec_result = Returned bool | Threw js_error

record browser =
  clipboard :: "(js_error + unit) option"
  execCommand_copy :: exec_result

text \<open>\<^verbatim>\<open>fallbackCopyTextToClipboard(text)\<close>, lines 383--403.\<close>

definition fallbackCopyTextToClipboard :: "browser \<Rightarrow> string \<Rightarrow> world \<Rightarrow> world" where
  "fallbackCopyTextToClipboard b txt w =
     (let textArea = TextArea (next_node w) txt;
          w1 = w\<lparr>next_node := Suc (next_node w), body := body w @ [textArea]\<rparr>;
          w2 = (case execCommand_copy b of
                  Returned r \<Rightarrow> showNotification ''Copied to clipboard!'' (Some ''success'') (Some 2000) w1
                | Threw err \<Rightarrow>
                    showNotification ''Copy failed. Please copy manually.'' (Some ''warning'') None
                      (w1\<lparr>console := console w1 @ [''Fallback copy failed: '' @ error_text err]\<rparr>))
      in w2\<lparr>body := remove1 textArea (body w2)\<rparr>)"

text \<open>\<^verbatim>\<open>copyToClipboard(text)\<close>, lines 367--378, once \<^verbatim>\<open>writeText\<close> has settled.\<close>

definition copyToClipboard :: "browser \<Rightarrow> string \<Rightarrow> world \<Rightarrow> world" where
  "copyToClipboard b txt w =
     (case clipboard b of
        Some (Inr u) \<Rightarrow> showNotification ''Copied to clipboard!'' (Some ''success'') (Some 2000) w
      | Some (Inl err) \<Rightarrow>
          fallbackCopyTextToClipboard b txt
            (w\<lparr>console := console w @ [''Failed to copy: '' @ error_text err]\<rparr>)
      | None \<Rightarrow> fallbackCopyTextToClipboard b txt w)"

section \<open>Debounce and throttle\<close>

text \<open>
  \<^verbatim>\<open>debounce(func, wait, immediate)\<close>, lines 301--319, returns a closure over the
  variable \<^verbatim>\<open>timeout\<close>.  The model is one such closure with its timers: the variable
  (\<open>None\<close> for \<^verbatim>\<open>undefined\<close> and \<^verbatim>\<open>null\<close>) and the record of the calls of
  \<^verbatim>\<open>func\<close>, each with its time and arguments.  \<^verbatim>\<open>func\<close> is taken to return and not to
  call the wrapper.  A registered \<^verbatim>\<open>later\<close> is known by the arguments it closes over.
\<close>

record 'a debounced = "'a timer_env" +
  timeout :: "nat option"
  calls :: "(nat \<times> 'a) list"

definition later :: "bool \<Rightarrow> 'a \<Rightarrow> 'a debounced \<Rightarrow> 'a debounced" where
  "later immediate args s =
     (let s1 = s\<lparr>timeout := None\<rparr>
      in if \<not> immediate then s1\<lparr>calls := calls s1 @ [(now s1, args)]\<rparr> else s1)"

definition executedFunction :: "nat \<Rightarrow> bool \<Rightarrow> 'a \<Rightarrow> 'a debounced \<Rightarrow> 'a debounced" where
  "executedFunction wait immediate args s =
     (let callNow = (immediate \<and> \<not> truthy_handle (timeout s));
          s1 = clearTimeout (timeout s) s;
          (h, s2) = setTimeout args wait s1;
          s3 = s2\<lparr>timeout := Some h\<rparr>
      in if callNow then s3\<lparr>calls := calls s3 @ [(now s3, args)]\<rparr> else s3)"

definition debounce :: "nat \<Rightarrow> 'a debounced" where
  "debounce t0 = \<lparr>now = t0, next_handle = 1, timeouts = [], timeout = None, calls = []\<rparr>"

text \<open>A call of the wrapper at time \<open>t\<close>: the clock reaches \<open>t\<close>, then the wrapper runs.\<close>

definition debounced_call :: "nat \<Rightarrow> bool \<Rightarrow> nat \<times> 'a \<Rightarrow> 'a debounced \<Rightarrow> 'a debounced" where
  "debounced_call wait immediate c s =
     executedFunction wait immediate (snd c) (advance (later immediate) (fst c) s)"

definition debounced_calls ::
  "nat \<Rightarrow> bool \<Rightarrow> (nat \<times> 'a) list \<Rightarrow> 'a debounced \<Rightarrow> 'a debounced" where
  "debounced_calls wait immediate cs s = fold (debounced_call wait immediate) cs s"

text \<open>
  A burst after a call at time \<open>t\<close>: each call comes no earlier than the one before it and
  less than \<open>wait\<close> after it.
\<close>

fun burst :: "nat \<Rightarrow> nat \<Rightarrow> (nat \<times> 'a) list \<Rightarrow> bool" where
  "burst wait t [] = True"
| "burst wait t (c # cs) = (t \<le> fst c \<and> fst c < t + wait \<and> burst wait (fst c) cs)"

text \<open>
  \<^verbatim>\<open>throttle(func, limit)\<close>, lines 324--335: a closure over \<^verbatim>\<open>inThrottle\<close>
  (\<^verbatim>\<open>undefined\<close> at first, which is \<open>False\<close> under \<^verbatim>\<open>!\<close>).  Its only callback sets the
  variable to \<^verbatim>\<open>false\<close>.

  The wrapper calls \<^verbatim>\<open>func\<close> before it sets the variable and registers the release, so
  what \<^verbatim>\<open>func\<close> does matters.  One run of \<^verbatim>\<open>func\<close> returns, or throws, or calls the
  wrapper itself with some arguments and goes on: \<open>Reenters a inner r e\<close> is a run that
  calls the wrapper with \<open>a\<close>, where \<open>inner\<close> is the run of \<^verbatim>\<open>func\<close> which that call
  starts if it starts one, and that goes on as \<open>r\<close> when the call returns and as \<open>e\<close> when
  it throws (\<open>e\<close> is \<open>Throws\<close> for a \<^verbatim>\<open>func\<close> that does not catch).  Every run that ends
  is such a finite tree.  A call of the wrapper comes with the time, the arguments and the
  run of \<^verbatim>\<open>func\<close> it starts if it starts one.
\<close>

record 'a throttled = "unit timer_env" +
  inThrottle :: bool
  invocations :: "(nat \<times> 'a) list"

datatype 'a behaviour =
  Returns
| Throws
| Reenters 'a "'a behaviour" "'a behaviour" "'a behaviour"

datatype 'a call = Call (call_time: nat) (call_args: 'a) (func_run: "'a behaviour")

definition release :: "unit \<Rightarrow> 'a throttled \<Rightarrow> 'a throttled" where
  "release u s = s\<lparr>inThrottle := False\<rparr>"

text \<open>
  \<open>throttled_function\<close> is the function \<^verbatim>\<open>throttle\<close> returns, lines 326--334, and
  \<open>func_apply\<close> the run of \<^verbatim>\<open>func.apply(context, args)\<close> in it; each gives whether it
  threw, and the state it leaves.  The call of \<^verbatim>\<open>func\<close> is recorded when it starts.  An
  exception of \<^verbatim>\<open>func\<close> leaves the wrapper before \<^verbatim>\<open>inThrottle = true\<close>.
\<close>

fun throttled_function :: "nat \<Rightarrow> 'a \<Rightarrow> 'a behaviour \<Rightarrow> 'a throttled \<Rightarrow> bool \<times> 'a throttled"
  and func_apply :: "nat \<Rightarrow> 'a behaviour \<Rightarrow> 'a throttled \<Rightarrow> bool \<times> 'a throttled" where
  "throttled_function limit args b s =
     (if \<not> inThrottle s then
        (let (threw, s1) = func_apply limit b (s\<lparr>invocations := invocations s @ [(now s, args)]\<rparr>)
         in if threw then (True, s1)
            else (let s2 = s1\<lparr>inThrottle := True\<rparr>
                  in (False, snd (setTimeout () limit s2))))
      else (False, s))"
| "func_apply limit Returns s = (False, s)"
| "func_apply limit Throws s = (True, s)"
| "func_apply limit (Reenters a inner r e) s =
     (let (threw, s1) = throttled_function limit a inner s
      in if threw then func_apply limit e s1 else func_apply limit r s1)"

declare throttled_function.simps [simp del]

definition throttle :: "nat \<Rightarrow> 'a throttled" where
  "throttle t0 = \<lparr>now = t0, next_handle = 1, timeouts = [], inThrottle = False, invocations = []\<rparr>"

text \<open>
  A call of the wrapper at its time: the clock reaches the time, then the wrapper runs.  An
  exception goes to the caller; the page goes on from the state it leaves.
\<close>

definition throttled_call :: "nat \<Rightarrow> 'a call \<Rightarrow> 'a throttled \<Rightarrow> 'a throttled" where
  "throttled_call limit c s =
     snd (throttled_function limit (call_args c) (func_run c) (advance release (call_time c) s))"

definition throttled_calls :: "nat \<Rightarrow> 'a call list \<Rightarrow> 'a throttled \<Rightarrow> 'a throttled" where
  "throttled_calls limit cs s = fold (throttled_call limit) cs s"

section \<open>Invariant of the notification timer\<close>

text \<open>
  What holds of the page whenever the script is idle: at most one timeout is registered, it
  is the one whose handle \<^verbatim>\<open>notificationTimeout\<close> holds, and handles are positive and
  below the next one to be given out.
\<close>

definition one_timer :: "world \<Rightarrow> bool" where
  "one_timer w \<longleftrightarrow>
     length (timeouts w) \<le> 1 \<and>
     (\<forall>x \<in> set (timeouts w). notificationTimeout w = Some (handle x)) \<and>
     (\<forall>x \<in> set (timeouts w). handle x < next_handle w) \<and>
     (\<forall>h. notificationTimeout w = Some h \<longrightarrow> 0 < h) \<and> 0 < next_handle w"

section \<open>Invariant of a throttled wrapper\<close>

text \<open>
  While \<^verbatim>\<open>inThrottle\<close> is set, the one timeout registered is the release due \<open>limit\<close>
  after the latest call of \<^verbatim>\<open>func\<close>; while it is not, no timeout is registered and every
  call of \<^verbatim>\<open>func\<close> lies at least \<open>limit\<close> back.  The calls of \<^verbatim>\<open>func\<close> are at least
  \<open>limit\<close> apart.
\<close>

definition throttle_inv :: "nat \<Rightarrow> 'a throttled \<Rightarrow> bool" where
  "throttle_inv limit s \<longleftrightarrow>
     (if inThrottle s
      then \<exists>h d. timeouts s = [Timer h (d + limit) ()] \<and> d \<in> fst ` set (invocations s) \<and>
             (\<forall>y \<in> set (invocations s). fst y \<le> d)
      else timeouts s = [] \<and> (\<forall>y \<in> set (invocations s). fst y + limit \<le> now s)) \<and>
     sorted_wrt (\<lambda>x y. fst x + limit \<le> fst y) (invocations s)"

section \<open>Properties of the relative timestamps\<close>

lemma minutes_div: "diff div 1000 div 60 = diff div 60000" for diff :: int
  using zdiv_zmult2_eq [of 60 diff 1000] by simp

lemma hours_div: "diff div 60000 div 60 = diff div 3600000" for diff :: int
  using zdiv_zmult2_eq [of 60 diff 60000] by simp

lemma days_div: "diff div 3600000 div 24 = diff div 86400000" for diff :: int
  using zdiv_zmult2_eq [of 24 diff 3600000] by simp

lemma days_pos: "0 < diff div 86400000 \<longleftrightarrow> 86400000 \<le> diff" for diff :: int
  using pos_imp_zdiv_pos_iff [of 86400000 diff] by simp

lemma hours_pos: "0 < diff div 3600000 \<longleftrightarrow> 3600000 \<le> diff" for diff :: int
  using pos_imp_zdiv_pos_iff [of 3600000 diff] by simp

lemma minutes_pos: "0 < diff div 60000 \<longleftrightarrow> 60000 \<le> diff" for diff :: int
  using pos_imp_zdiv_pos_iff [of 60000 diff] by simp

lemma formatTimeDifference_by_range:
  "formatTimeDifference diff =
     (if 86400000 \<le> diff then
        number_to_string (diff div 86400000) @ '' day''
          @ (if diff div 86400000 \<noteq> 1 then ''s'' else []) @ '' ago''
      else if 3600000 \<le> diff then
        number_to_string (diff div 3600000) @ '' hour''
          @ (if diff div 3600000 \<noteq> 1 then ''s'' else []) @ '' ago''
      else if 60000 \<le> diff then
        number_to_string (diff div 60000) @ '' minute''
          @ (if diff div 60000 \<noteq> 1 then ''s'' else []) @ '' ago''
      else ''Just now'')"
  by (simp only: formatTimeDifference_def Let_def days_div hours_div minutes_div
      days_pos hours_pos minutes_pos)

lemmas show_number = number_to_string_def nat_to_string.simps digit_char_def

lemma formatTimeDifference_boundaries:
  "formatTimeDifference 0 = ''Just now''"
  "formatTimeDifference 59000 = ''Just now''"
  "formatTimeDifference 60000 = ''1 minute ago''"
  "formatTimeDifference 3600000 = ''1 hour ago''"
  "formatTimeDifference 86400000 = ''1 day ago''"
  by (simp_all add: formatTimeDifference_by_range show_number)

text \<open>
  Claim C1.  For a difference of at least zero milliseconds, \<open>formatTimeDifference\<close> gives
  \<open>Just now\<close> at 0 ms and at 59 s, \<open>1 minute ago\<close> at 60 s, \<open>1 hour ago\<close> at 3600 s and
  \<open>1 day ago\<close> at 86400 s; in general it counts in the largest unit that fits (days from
  86400000 ms, hours from 3600000 ms, minutes from 60000 ms, none below), the count being
  the whole number of such units in the difference, and the unit takes an \<open>s\<close> exactly when
  the count is not 1.
\<close>

theorem formatTimeDifference_units:
  "0 \<le> diff \<Longrightarrow>
   formatTimeDifference 0 = ''Just now'' \<and>
   formatTimeDifference 59000 = ''Just now'' \<and>
   formatTimeDifference 60000 = ''1 minute ago'' \<and>
   formatTimeDifference 3600000 = ''1 hour ago'' \<and>
   formatTimeDifference 86400000 = ''1 day ago'' \<and>
   formatTimeDifference diff =
     (if 86400000 \<le> diff then
        number_to_string (diff div 86400000) @ '' day''
          @ (if diff div 86400000 \<noteq> 1 then ''s'' else []) @ '' ago''
      else if 3600000 \<le> diff then
        number_to_string (diff div 3600000) @ '' hour''
          @ (if diff div 3600000 \<noteq> 1 then ''s'' else []) @ '' ago''
      else if 60000 \<le> diff then
        number_to_string (diff div 60000) @ '' minute''
          @ (if diff div 60000 \<noteq> 1 then ''s'' else []) @ '' ago''
      else ''Just now'')"
  using formatTimeDifference_by_range [of diff] formatTimeDifference_boundaries
  by (simp only: simp_thms)

theorem formatTimeDifference_units_witness:
  "(0::int) \<le> 7200000 \<and> formatTimeDifference 7200000 = ''2 hours ago''"
  using formatTimeDifference_units [of 7200000] by (simp add: show_number)

section \<open>Properties of the theme preference\<close>

lemma setTheme_mirror:
  "localStorage (setTheme theme p) theme_key = Some theme \<and>
   data_theme (setTheme theme p) = Some theme"
  by (simp add: setTheme_def)

text \<open>
  Claim C4, as stated: after \<open>initializeTheme\<close>, \<open>setTheme\<close> or \<open>toggleTheme\<close> the stored
  preference is \<open>light\<close> or \<open>dark\<close> and equals the attribute.  It fails: \<open>setTheme\<close>
  stores any string it is given, and \<open>initializeTheme\<close> on an empty storage stores nothing
  while the attribute keeps its value.
\<close>

theorem theme_not_restricted_counterexample:
  "localStorage (setTheme ''blue'' \<lparr>localStorage = Map.empty, data_theme = None\<rparr>) theme_key
     = Some ''blue'' \<and>
   localStorage (initializeTheme \<lparr>localStorage = Map.empty, data_theme = Some ''dark''\<rparr>) theme_key
     = None \<and>
   data_theme (initializeTheme \<lparr>localStorage = Map.empty, data_theme = Some ''dark''\<rparr>)
     = Some ''dark''"
  by (simp add: setTheme_def initializeTheme_def theme_key_def)

text \<open>
  Claim C4, amended.  After \<open>setTheme theme\<close> the storage under \<open>cms-theme\<close> and the
  attribute both hold \<open>theme\<close>, whatever string it is; after \<open>toggleTheme\<close> both hold the
  same one of \<open>light\<close> and \<open>dark\<close>; after \<open>initializeTheme\<close> with a saved string that is
  not empty both hold that string; with nothing saved, or the empty string,
  \<open>initializeTheme\<close> changes nothing.
\<close>

theorem theme_mirrored:
  "localStorage (setTheme theme p) theme_key = Some theme \<and>
   data_theme (setTheme theme p) = Some theme \<and>
   (\<exists>t \<in> {''light'', ''dark''}.
      localStorage (toggleTheme p) theme_key = Some t \<and> data_theme (toggleTheme p) = Some t) \<and>
   (localStorage p theme_key = Some saved \<and> saved \<noteq> [] \<longrightarrow>
      localStorage (initializeTheme p) theme_key = Some saved \<and>
      data_theme (initializeTheme p) = Some saved) \<and>
   (localStorage p theme_key = None \<or> localStorage p theme_key = Some [] \<longrightarrow>
      initializeTheme p = p)"
  by (auto simp: toggleTheme_def setTheme_def initializeTheme_def Let_def)

theorem theme_mirrored_witness:
  "localStorage (toggleTheme \<lparr>localStorage = Map.empty, data_theme = None\<rparr>) theme_key = Some ''dark'' \<and>
   data_theme (initializeTheme \<lparr>localStorage = [theme_key \<mapsto> ''sepia''], data_theme = None\<rparr>)
     = Some ''sepia'' \<and>
   initializeTheme \<lparr>localStorage = Map.empty, data_theme = Some ''dark''\<rparr>
     = \<lparr>localStorage = Map.empty, data_theme = Some ''dark''\<rparr>"
  using theme_mirrored [of "''dark''" "\<lparr>localStorage = Map.empty, data_theme = None\<rparr>" "''x''"]
    theme_mirrored [of "''x''" "\<lparr>localStorage = [theme_key \<mapsto> ''sepia''], data_theme = None\<rparr>" "''sepia''"]
    theme_mirrored [of "''x''" "\<lparr>localStorage = Map.empty, data_theme = Some ''dark''\<rparr>" "''x''"]
  by (simp add: toggleTheme_def setTheme_def Let_def)

text \<open>
  Claim C5.  When the root attribute is \<open>light\<close> or \<open>dark\<close>, \<open>toggleTheme\<close> puts the other
  value on the attribute and in the storage under \<open>cms-theme\<close>, and toggling twice brings
  the first value back, on both.
\<close>

theorem toggleTheme_flips:
  "data_theme p = Some cur \<Longrightarrow> cur \<in> {''light'', ''dark''} \<Longrightarrow>
   data_theme (toggleTheme p) = Some (if cur = ''dark'' then ''light'' else ''dark'') \<and>
   localStorage (toggleTheme p) theme_key = Some (if cur = ''dark'' then ''light'' else ''dark'') \<and>
   data_theme (toggleTheme p) \<noteq> data_theme p \<and>
   data_theme (toggleTheme (toggleTheme p)) = Some cur \<and>
   localStorage (toggleTheme (toggleTheme p)) theme_key = Some cur"
  by (auto simp: toggleTheme_def setTheme_def Let_def)

theorem toggleTheme_flips_witness:
  "data_theme (toggleTheme \<lparr>localStorage = Map.empty, data_theme = Some ''light''\<rparr>) = Some ''dark'' \<and>
   localStorage (toggleTheme \<lparr>localStorage = Map.empty, data_theme = Some ''light''\<rparr>) theme_key
     = Some ''dark'' \<and>
   data_theme (toggleTheme (toggleTheme \<lparr>localStorage = Map.empty, data_theme = Some ''light''\<rparr>))
     = Some ''light''"
  using toggleTheme_flips [of "\<lparr>localStorage = Map.empty, data_theme = Some ''light''\<rparr>" "''light''"]
  by simp

section \<open>Properties of \<open>parseInt\<close> and of auto-refresh\<close>

lemma digit_cases: "d < 10 \<Longrightarrow> d \<in> {0, 1, 2, 3, 4, 5, 6, 7, 8, 9 :: nat}"
  by auto

lemma digit_value_digit_char: "d < 10 \<Longrightarrow> digit_value (digit_char d) = Some d"
  using digit_cases [of d] by (auto simp: digit_value_def digit_char_def)

lemma digit_char_not_space: "\<not> is_space (digit_char d)"
  by (simp add: digit_char_def is_space_def)

lemma digit_char_not_sign: "digit_char d \<noteq> CHR ''-'' \<and> digit_char d \<noteq> CHR ''+''"
  by (simp add: digit_char_def)

lemma digit_char_not_x: "digit_char d \<noteq> CHR ''x'' \<and> digit_char d \<noteq> CHR ''X''"
  by (simp add: digit_char_def)

lemma is_digit_digit_char: "d < 10 \<Longrightarrow> is_digit_of 10 (digit_char d)"
  by (simp add: is_digit_of_def digit_value_digit_char)

lemma nat_to_string_digits: "\<forall>c \<in> set (nat_to_string n). \<exists>d < 10. c = digit_char d"
proof (induction n rule: nat_to_string.induct)
  case (1 n)
  show ?case
  proof (cases "n < 10")
    case True
    then show ?thesis by (subst nat_to_string.simps) auto
  next
    case False
    have "\<exists>d<10. digit_char (n mod 10) = digit_char d"
      by (rule exI [of _ "n mod 10"]) simp
    with False 1 show ?thesis by (subst nat_to_string.simps) auto
  qed
qed

lemma nat_to_string_not_Nil: "nat_to_string n \<noteq> []"
  by (subst nat_to_string.simps) simp

lemma digits_value_snoc:
  "digits_value r (ds @ [c]) =
     digits_value r ds * r + (case digit_value c of None \<Rightarrow> 0 | Some d \<Rightarrow> d)"
  by (simp add: digits_value_def)

lemma digits_value_nat_to_string: "digits_value 10 (nat_to_string n) = n"
proof (induction n rule: nat_to_string.induct)
  case (1 n)
  show ?case
  proof (cases "n < 10")
    case True
    then show ?thesis
      by (subst nat_to_string.simps) (simp add: digits_value_def digit_value_digit_char)
  next
    case False
    have "digits_value 10 (nat_to_string (n div 10) @ [digit_char (n mod 10)]) = n"
      using 1 False by (simp add: digits_value_snoc digit_value_digit_char)
    with False show ?thesis by (subst nat_to_string.simps) simp
  qed
qed

lemma takeWhile_nat_to_string:
  "takeWhile (is_digit_of 10) (nat_to_string n) = nat_to_string n"
  using nat_to_string_digits [of n] by (auto simp: takeWhile_eq_all_conv is_digit_digit_char)

lemma nat_to_string_shape:
  "\<exists>d rest. nat_to_string n = digit_char d # rest"
  using nat_to_string_digits [of n] nat_to_string_not_Nil [of n]
  by (cases "nat_to_string n") auto

lemma hex_prefix_x: "has_hex_prefix s \<Longrightarrow> CHR ''x'' \<in> set s \<or> CHR ''X'' \<in> set s"
  unfolding has_hex_prefix_def by (metis in_set_takeD list.set_intros(1,2))

lemma hex_prefix_zero: "has_hex_prefix s \<Longrightarrow> CHR ''0'' \<in> set s"
  unfolding has_hex_prefix_def by (metis in_set_takeD list.set_intros(1))

lemma nat_to_string_no_prefix: "\<not> has_hex_prefix (nat_to_string n)"
proof
  assume "has_hex_prefix (nat_to_string n)"
  then obtain c where c: "c \<in> set (nat_to_string n)" "c = CHR ''x'' \<or> c = CHR ''X''"
    using hex_prefix_x by blast
  then obtain d where "c = digit_char d"
    using nat_to_string_digits [of n] by blast
  with c(2) digit_char_not_x [of d] show False by simp
qed

lemma strip_sign_nat_to_string: "strip_sign (nat_to_string n) = (1, nat_to_string n)"
proof -
  obtain d rest where sh: "nat_to_string n = digit_char d # rest"
    using nat_to_string_shape by blast
  show ?thesis
    unfolding sh using digit_char_not_sign [of d] by (simp add: strip_sign_def)
qed

lemma dropWhile_nat_to_string: "dropWhile is_space (nat_to_string n) = nat_to_string n"
proof -
  obtain d rest where sh: "nat_to_string n = digit_char d # rest"
    using nat_to_string_shape by blast
  show ?thesis
    unfolding sh using digit_char_not_space [of d] by simp
qed

lemma parseInt_unsigned: "parseInt (nat_to_string n) = Some (int n)"
  by (simp add: parseInt_def dropWhile_nat_to_string strip_sign_nat_to_string strip_prefix_def
      nat_to_string_no_prefix takeWhile_nat_to_string nat_to_string_not_Nil
      digits_value_nat_to_string)

lemma parseInt_negative: "parseInt (CHR ''-'' # nat_to_string n) = Some (- int n)"
proof -
  have sp: "\<not> is_space (CHR ''-'')" by (simp add: is_space_def)
  show ?thesis
    by (simp add: parseInt_def sp strip_sign_def strip_prefix_def
      nat_to_string_no_prefix takeWhile_nat_to_string nat_to_string_not_Nil
      digits_value_nat_to_string)
qed

lemma parseInt_number_to_string: "parseInt (number_to_string i) = Some i"
  by (simp add: number_to_string_def parseInt_unsigned parseInt_negative)

lemma set_strip_sign: "set (snd (strip_sign s)) \<subseteq> set s"
  by (auto simp: strip_sign_def split: list.splits)

lemma parseInt_no_digit:
  assumes "\<forall>c \<in> set v. \<not> is_digit_of 10 c"
  shows "parseInt v = None"
proof -
  obtain sign s1 where ss: "strip_sign (dropWhile is_space v) = (sign, s1)"
    by (cases "strip_sign (dropWhile is_space v)")
  have "set s1 \<subseteq> set (dropWhile is_space v)"
    using set_strip_sign [of "dropWhile is_space v"] ss by simp
  then have s1: "\<forall>c \<in> set s1. \<not> is_digit_of 10 c"
    using assms set_dropWhileD by fast
  have zero: "is_digit_of 10 (CHR ''0'')"
    by (simp add: is_digit_of_def digit_value_def)
  have np: "\<not> has_hex_prefix s1"
    using hex_prefix_zero [of s1] s1 zero by blast
  have tw: "takeWhile (is_digit_of 10) s1 = []"
    using s1 by (cases s1) auto
  show ?thesis
    by (simp add: parseInt_def ss strip_prefix_def np tw)
qed

lemma refresh_interval_cases:
  "(parseInt v = None \<or> parseInt v = Some 0 \<longrightarrow> refresh_interval (Some v) = 30000) \<and>
   (parseInt v = Some n \<and> n \<noteq> 0 \<longrightarrow> refresh_interval (Some v) = n)"
  by (auto simp: refresh_interval_def)

lemma parseInt_Nil: "parseInt [] = None"
  by (simp add: parseInt_def strip_sign_def strip_prefix_def has_hex_prefix_def)

lemmas parseInt_eval = parseInt_def strip_sign_def strip_prefix_def has_hex_prefix_def
  is_digit_of_def digit_value_def digits_value_def is_space_def

section \<open>Properties of the timers of the page\<close>

lemma fold_run_preserves:
  assumes "\<And>c v. f (run c v) = f v" and "\<And>v n. f (v\<lparr>now := n\<rparr>) = f v"
  shows "f (fold (\<lambda>x v. run (callback x) (v\<lparr>now := max (now v) (due x)\<rparr>)) xs w) = f w"
  using assms by (induction xs arbitrary: w) simp_all

lemma advance_preserves:
  assumes "\<And>c v. f (run c v) = f v" and "\<And>v n. f (v\<lparr>now := n\<rparr>) = f v"
    and "\<And>v x. f (v\<lparr>timeouts := x\<rparr>) = f v"
  shows "f (advance run t w) = f w"
  unfolding advance_def Let_def
  by (simp add: assms(2,3) fold_run_preserves [of f run, OF assms(1,2)])

lemma advance_timeouts:
  assumes "\<And>c v. timeouts (run c v) = timeouts v"
  shows "timeouts (advance run t w) = filter (\<lambda>x. \<not> due x \<le> t) (timeouts w)"
  unfolding advance_def Let_def
  by (simp add: fold_run_preserves [of timeouts run, OF assms])

lemma advance_not_due:
  assumes "\<forall>x \<in> set (timeouts s). t < due x"
  shows "advance run t s = s\<lparr>now := max (now s) t\<rparr>"
proof -
  have "filter (\<lambda>x. due x \<le> t) (timeouts s) = []"
    using assms by (auto simp: filter_empty_conv)
  moreover have "filter (\<lambda>x. \<not> due x \<le> t) (timeouts s) = timeouts s"
    using assms by (auto simp: filter_id_conv)
  ultimately show ?thesis by (simp add: advance_def)
qed

lemma advance_single_due:
  assumes "timeouts s = [Timer h d c]" and "d \<le> t"
  shows "advance run t s =
    (let v = run c (s\<lparr>timeouts := [], now := max (now s) d\<rparr>) in v\<lparr>now := max (now v) t\<rparr>)"
  using assms by (simp add: advance_def Let_def)

lemma run_callback_fields:
  "timeouts (run_callback c v) = timeouts v"
  "notificationTimeout (run_callback c v) = notificationTimeout v"
  "autoRefreshInterval (run_callback c v) = autoRefreshInterval v"
  "next_handle (run_callback c v) = next_handle v"
  "intervals (run_callback c v) = intervals v"
  by (cases c; simp)+

lemma pass_time_fields:
  "timeouts (pass_time t w) = filter (\<lambda>x. \<not> due x \<le> t) (timeouts w)"
  "notificationTimeout (pass_time t w) = notificationTimeout w"
  "autoRefreshInterval (pass_time t w) = autoRefreshInterval w"
  "next_handle (pass_time t w) = next_handle w"
  "intervals (pass_time t w) = intervals w"
  unfolding pass_time_def
  by (simp_all add: advance_timeouts advance_preserves run_callback_fields)

lemma showNotification_timeouts:
  assumes "one_timer w"
  shows "timeouts (showNotification message type_arg duration_arg w) =
      [Timer (next_handle w)
         (now w + (case duration_arg of None \<Rightarrow> 3000 | Some d \<Rightarrow> d))
         (RemoveNotification (next_node w))] \<and>
    notificationTimeout (showNotification message type_arg duration_arg w) = Some (next_handle w)"
proof (cases "notificationTimeout w")
  case None
  with assms have "timeouts w = []"
    by (cases "timeouts w") (auto simp: one_timer_def)
  with None show ?thesis
    by (simp add: showNotification_def truthy_handle_def setTimeout_def Let_def)
next
  case (Some h)
  with assms have "0 < h" and "\<forall>x \<in> set (timeouts w). handle x = h"
    by (auto simp: one_timer_def)
  then have "filter (\<lambda>x. handle x \<noteq> h) (timeouts w) = []" "h \<noteq> 0"
    by (auto simp: filter_empty_conv)
  with Some show ?thesis
    by (simp add: showNotification_def truthy_handle_def setTimeout_def clearTimeout_def Let_def)
qed

lemma showNotification_next_handle:
  "next_handle (showNotification message type_arg duration_arg w) = Suc (next_handle w)"
  "autoRefreshInterval (showNotification message type_arg duration_arg w) = autoRefreshInterval w"
  "intervals (showNotification message type_arg duration_arg w) = intervals w"
  by (simp_all add: showNotification_def setTimeout_def clearTimeout_def Let_def
      split: option.splits)

lemma one_timer_showNotification:
  "one_timer w \<Longrightarrow> one_timer (showNotification message type_arg duration_arg w)"
  using showNotification_timeouts [of w message type_arg duration_arg]
  by (simp add: one_timer_def showNotification_next_handle)

lemma start_refresh_fields:
  "timeouts (start_refresh e w) = timeouts w"
  "notificationTimeout (start_refresh e w) = notificationTimeout w"
  "autoRefreshInterval (start_refresh e w) = autoRefreshInterval w"
  "next_handle (start_refresh e w) = Suc (next_handle w)"
  "intervals (start_refresh e w) = intervals w @
     [\<lparr>interval_handle = next_handle w, period = refresh_interval (autoRefresh e),
       target = elem_id e\<rparr>]"
  by (simp_all add: start_refresh_def setInterval_def)

lemma fold_start_refresh_fields:
  "timeouts (fold start_refresh es w) = timeouts w \<and>
   notificationTimeout (fold start_refresh es w) = notificationTimeout w \<and>
   autoRefreshInterval (fold start_refresh es w) = autoRefreshInterval w \<and>
   next_handle w \<le> next_handle (fold start_refresh es w)"
proof (induction es arbitrary: w)
  case Nil
  show ?case by simp
next
  case (Cons e es)
  show ?case using Cons [of "start_refresh e w"] by (simp add: start_refresh_fields)
qed

lemma setupAutoRefresh_fields:
  "timeouts (setupAutoRefresh w) = timeouts w"
  "notificationTimeout (setupAutoRefresh w) = notificationTimeout w"
  "autoRefreshInterval (setupAutoRefresh w) = autoRefreshInterval w"
  "next_handle w \<le> next_handle (setupAutoRefresh w)"
  unfolding setupAutoRefresh_def using fold_start_refresh_fields [of "refreshElements w" w]
  by simp_all

lemma one_timer_setupAutoRefresh: "one_timer w \<Longrightarrow> one_timer (setupAutoRefresh w)"
  using setupAutoRefresh_fields(4) [of w]
  by (fastforce simp: one_timer_def setupAutoRefresh_fields(1,2))

lemma length_filter_le_one: "length xs \<le> Suc 0 \<Longrightarrow> length (filter P xs) \<le> Suc 0"
  using length_filter_le [of P xs] by linarith

lemma one_timer_pass_time: "one_timer w \<Longrightarrow> one_timer (pass_time t w)"
  by (simp add: one_timer_def pass_time_fields length_filter_le_one)

lemma one_timer_step: "one_timer w \<Longrightarrow> one_timer (step ev w)"
  by (cases ev)
    (simp_all add: one_timer_showNotification one_timer_setupAutoRefresh one_timer_pass_time)

lemma one_timer_fold: "one_timer w \<Longrightarrow> one_timer (fold step evs w)"
  by (induction evs arbitrary: w) (simp_all add: one_timer_step)

lemma one_timer_fresh: "one_timer (fresh_world es)"
  by (simp add: one_timer_def fresh_world_def)

lemma one_timer_run_events: "one_timer (run_events evs (fresh_world es))"
  unfolding run_events_def by (rule one_timer_fold [OF one_timer_fresh])

lemma autoRefreshInterval_step: "autoRefreshInterval (step ev w) = autoRefreshInterval w"
  by (cases ev) (simp_all add: showNotification_next_handle setupAutoRefresh_fields pass_time_fields)

lemma autoRefreshInterval_run_events:
  "autoRefreshInterval (run_events evs (fresh_world es)) = None"
proof -
  have "autoRefreshInterval (fold step evs w) = autoRefreshInterval w" for w
    by (induction evs arbitrary: w) (simp_all add: autoRefreshInterval_step)
  then show ?thesis by (simp add: run_events_def fresh_world_def)
qed

lemma fold_start_refresh_intervals:
  "\<exists>new. intervals (fold start_refresh es w) = intervals w @ new \<and>
     map (\<lambda>i. (target i, period i)) new =
     map (\<lambda>e. (elem_id e, refresh_interval (autoRefresh e))) es"
proof (induction es arbitrary: w)
  case Nil
  show ?case by simp
next
  case (Cons e es)
  from Cons [of "start_refresh e w"] obtain new where
    new: "intervals (fold start_refresh es (start_refresh e w)) =
            intervals (start_refresh e w) @ new"
      "map (\<lambda>i. (target i, period i)) new =
         map (\<lambda>e. (elem_id e, refresh_interval (autoRefresh e))) es"
    by blast
  let ?i = "\<lparr>interval_handle = next_handle w, period = refresh_interval (autoRefresh e),
       target = elem_id e\<rparr>"
  have "intervals (fold start_refresh (e # es) w) = intervals w @ (?i # new)"
    using new(1) by (simp add: start_refresh_fields)
  moreover have "map (\<lambda>i. (target i, period i)) (?i # new) =
     map (\<lambda>e. (elem_id e, refresh_interval (autoRefresh e))) (e # es)"
    using new(2) by simp
  ultimately show ?case by blast
qed

lemma setupAutoRefresh_intervals:
  "\<exists>new. intervals (setupAutoRefresh w) = intervals w @ new \<and>
     map (\<lambda>i. (target i, period i)) new =
     map (\<lambda>e. (elem_id e, refresh_interval (autoRefresh e))) (refreshElements w)"
  unfolding setupAutoRefresh_def by (rule fold_start_refresh_intervals)

text \<open>
  Claim C10.  \<open>setupAutoRefresh\<close> creates, after the intervals that exist, one interval for
  each element that has the \<^verbatim>\<open>data-auto-refresh\<close> attribute, in document order, with the
  period \<open>refresh_interval\<close> of the attribute's value.  That period is 30000 when the value
  is empty, has no decimal digit, is otherwise read as \<^verbatim>\<open>NaN\<close> by \<open>parseInt\<close>, or is
  read as 0; it is the integer \<open>parseInt\<close> reads in every other case; and \<open>parseInt\<close>
  reads the decimal text of an integer as that integer.
\<close>

theorem setupAutoRefresh_period:
  "(\<exists>new. intervals (setupAutoRefresh w) = intervals w @ new \<and>
      map (\<lambda>i. (target i, period i)) new =
      map (\<lambda>e. (elem_id e, refresh_interval (autoRefresh e))) (refreshElements w)) \<and>
   set (refreshElements w) = {e \<in> set (elements w). autoRefresh e \<noteq> None} \<and>
   (v = [] \<or> (\<forall>c \<in> set v. \<not> is_digit_of 10 c) \<or> parseInt v = None \<or> parseInt v = Some 0
      \<longrightarrow> refresh_interval (Some v) = 30000) \<and>
   (parseInt v = Some n \<and> n \<noteq> 0 \<longrightarrow> refresh_interval (Some v) = n) \<and>
   parseInt (number_to_string n) = Some n"
  using setupAutoRefresh_intervals [of w] refresh_interval_cases [of v n]
    parseInt_no_digit [of v] parseInt_Nil parseInt_number_to_string [of n]
  by (auto simp: refreshElements_def)

theorem setupAutoRefresh_period_witness:
  "map (\<lambda>i. (target i, period i))
     (intervals (setupAutoRefresh (fresh_world
        [\<lparr>elem_id = 1, autoRefresh = Some ''5000''\<rparr>, \<lparr>elem_id = 2, autoRefresh = None\<rparr>,
         \<lparr>elem_id = 3, autoRefresh = Some ''soon''\<rparr>, \<lparr>elem_id = 4, autoRefresh = Some ''0''\<rparr>])))
     = [(1, 5000), (3, 30000), (4, 30000)] \<and>
   refresh_interval (Some []) = 30000 \<and> refresh_interval (Some ''0'') = 30000 \<and>
   refresh_interval (Some ''5000'') = 5000"
proof -
  have p0: "parseInt ''0'' = Some 0" and p5: "parseInt ''5000'' = Some 5000"
    and ps: "parseInt ''soon'' = None"
    by (simp_all add: parseInt_eval)
  have r0: "refresh_interval (Some ''0'') = 30000"
    using setupAutoRefresh_period [where v = "''0''"] p0 by simp
  have r5: "refresh_interval (Some ''5000'') = 5000"
    using setupAutoRefresh_period [where v = "''5000''" and n = 5000] p5 by simp
  have rs: "refresh_interval (Some ''soon'') = 30000"
    using setupAutoRefresh_period [where v = "''soon''"] ps by simp
  have re: "refresh_interval (Some []) = 30000"
    using setupAutoRefresh_period [where v = "[]"] by simp
  show ?thesis
    using setupAutoRefresh_period [where w = "fresh_world
        [\<lparr>elem_id = 1, autoRefresh = Some ''5000''\<rparr>, \<lparr>elem_id = 2, autoRefresh = None\<rparr>,
         \<lparr>elem_id = 3, autoRefresh = Some ''soon''\<rparr>, \<lparr>elem_id = 4, autoRefresh = Some ''0''\<rparr>]"]
    by (auto simp: fresh_world_def refreshElements_def r0 r5 rs re)
qed

lemmas world_eval = run_events_def fresh_world_def showNotification_def truthy_handle_def
  clearTimeout_def setTimeout_def pass_time_def advance_def Let_def

lemma showNotification_body:
  "body (showNotification message type_arg duration_arg w) =
     body w @ [Alert (next_node w)
       (''alert alert-'' @ (case type_arg of None \<Rightarrow> ''info'' | Some x \<Rightarrow> x)
          @ '' alert-dismissible fade show position-fixed'') message]"
  by (simp add: showNotification_def setTimeout_def clearTimeout_def Let_def
      split: option.splits)

lemma showNotification_console:
  "console (showNotification message type_arg duration_arg w) = console w"
  "next_node (showNotification message type_arg duration_arg w) = Suc (next_node w)"
  by (simp_all add: showNotification_def setTimeout_def clearTimeout_def Let_def
      split: option.splits)

text \<open>
  Claim C2, as stated: \<open>showNotification\<close> and \<open>setupAutoRefresh\<close> each clear the handle
  stored before and keep the new one, so one handle of each kind is tracked.  It fails for
  \<open>setupAutoRefresh\<close>: called twice on a page with one refreshing element it leaves two
  intervals running, the first not cleared, and \<open>autoRefreshInterval\<close> holds no handle.
\<close>

theorem autoRefresh_not_tracked_counterexample:
  "map interval_handle (intervals (setupAutoRefresh (setupAutoRefresh
      (fresh_world [\<lparr>elem_id = 7, autoRefresh = Some ''1000''\<rparr>])))) = [1, 2] \<and>
   autoRefreshInterval (setupAutoRefresh (setupAutoRefresh
      (fresh_world [\<lparr>elem_id = 7, autoRefresh = Some ''1000''\<rparr>]))) = None"
  by (simp add: setupAutoRefresh_def refreshElements_def start_refresh_def setInterval_def
      fresh_world_def)

text \<open>
  Claim C2, amended.  In every state \<open>w\<close> the page reaches from its load by calls of
  \<open>showNotification\<close>, calls of \<open>setupAutoRefresh\<close> and the passing of time, at most one
  timeout is pending and \<open>notificationTimeout\<close> holds its handle; a call of
  \<open>showNotification\<close> leaves exactly the timeout it creates pending, under a handle that no
  timeout pending before had, and stores that handle.  \<open>autoRefreshInterval\<close> never holds a
  handle, and a call of \<open>setupAutoRefresh\<close> keeps every interval there is and adds one for
  each matching element.
\<close>

theorem notification_timer_single:
  assumes "w = run_events evs (fresh_world es)"
  shows "length (timeouts w) \<le> 1 \<and>
    (\<forall>x \<in> set (timeouts w). notificationTimeout w = Some (handle x)) \<and>
    timeouts (showNotification message type_arg duration_arg w) =
      [Timer (next_handle w)
         (now w + (case duration_arg of None \<Rightarrow> 3000 | Some d \<Rightarrow> d))
         (RemoveNotification (next_node w))] \<and>
    notificationTimeout (showNotification message type_arg duration_arg w) = Some (next_handle w) \<and>
    (\<forall>x \<in> set (timeouts w). handle x \<noteq> next_handle w) \<and>
    autoRefreshInterval w = None \<and>
    autoRefreshInterval (setupAutoRefresh w) = None \<and>
    (\<exists>new. intervals (setupAutoRefresh w) = intervals w @ new \<and>
       length new = length (refreshElements w))"
proof -
  have inv: "one_timer w"
    unfolding assms by (rule one_timer_run_events)
  have ar: "autoRefreshInterval w = None"
    unfolding assms by (rule autoRefreshInterval_run_events)
  obtain new where new: "intervals (setupAutoRefresh w) = intervals w @ new"
    "map (\<lambda>i. (target i, period i)) new =
     map (\<lambda>e. (elem_id e, refresh_interval (autoRefresh e))) (refreshElements w)"
    using setupAutoRefresh_intervals [of w] by blast
  from new(2) have "length new = length (refreshElements w)"
    using map_eq_imp_length_eq by blast
  with new(1) have iv: "\<exists>new. intervals (setupAutoRefresh w) = intervals w @ new \<and>
       length new = length (refreshElements w)"
    by blast
  have fresh: "\<forall>x \<in> set (timeouts w). handle x \<noteq> next_handle w"
    using inv by (fastforce simp: one_timer_def)
  show ?thesis
    using inv showNotification_timeouts [OF inv, of message type_arg duration_arg] ar iv fresh
    by (simp add: one_timer_def setupAutoRefresh_fields)
qed

theorem notification_timer_single_witness:
  "timeouts (run_events [ShowNotification ''a'' None None, PassTime 1000,
      ShowNotification ''b'' (Some ''info'') (Some 500)] (fresh_world []))
     = [Timer 2 1500 (RemoveNotification 1)] \<and>
   notificationTimeout (run_events [ShowNotification ''a'' None None, PassTime 1000,
      ShowNotification ''b'' (Some ''info'') (Some 500)] (fresh_world [])) = Some 2"
  using notification_timer_single [of
      "run_events [ShowNotification ''a'' None None, PassTime 1000] (fresh_world [])"
      "[ShowNotification ''a'' None None, PassTime 1000]" "[]" "''b''" "Some ''info''" "Some 500"]
  by (simp add: world_eval)

lemma notification_removed_when_undisturbed:
  assumes "one_timer w" and "now w + (case duration_arg of None \<Rightarrow> 3000 | Some d \<Rightarrow> d) \<le> T"
  shows "\<forall>x \<in> set (body (pass_time T (showNotification message type_arg duration_arg w))).
    node_id x \<noteq> next_node w"
proof -
  let ?v = "showNotification message type_arg duration_arg w"
  have "timeouts ?v =
      [Timer (next_handle w) (now w + (case duration_arg of None \<Rightarrow> 3000 | Some d \<Rightarrow> d))
         (RemoveNotification (next_node w))]"
    using showNotification_timeouts [OF assms(1)] by simp
  from advance_single_due [OF this assms(2), of run_callback]
  show ?thesis by (simp add: pass_time_def Let_def)
qed

text \<open>
  Claim C3 says that every notification is removed from the document after its timeout,
  also when a later call comes while its removal is pending.  A notification that no later
  call disturbs is removed, as the lemma above shows.  With a later call the code does not
  do what the claim says: a second call at 1000 ms cancels the removal of the first
  notification, which is due at 3000 ms, and the first notification is in the document at
  every later time \<open>T\<close>.
\<close>

theorem earlier_notification_stays:
  "Alert 0 ''alert alert-info alert-dismissible fade show position-fixed'' ''first''
     \<in> set (body (run_events
          [ShowNotification ''first'' None None, PassTime 1000,
           ShowNotification ''second'' None None, PassTime T] (fresh_world [])))"
proof -
  let ?w = "run_events [ShowNotification ''first'' None None, PassTime 1000,
           ShowNotification ''second'' None None] (fresh_world [])"
  have b: "body ?w = [Alert 0 ''alert alert-info alert-dismissible fade show position-fixed'' ''first'',
       Alert 1 ''alert alert-info alert-dismissible fade show position-fixed'' ''second'']"
    and t: "timeouts ?w = [Timer 2 4000 (RemoveNotification 1)]"
    by (simp_all add: world_eval)
  have "run_events [ShowNotification ''first'' None None, PassTime 1000,
           ShowNotification ''second'' None None, PassTime T] (fresh_world []) = pass_time T ?w"
    by (simp add: run_events_def)
  moreover have "Alert 0 ''alert alert-info alert-dismissible fade show position-fixed'' ''first''
     \<in> set (body (pass_time T ?w))"
    by (cases "4000 \<le> T") (simp_all add: pass_time_def advance_def Let_def b t)
  ultimately show ?thesis by simp
qed

section \<open>Properties of requests and of the clipboard\<close>

text \<open>
  Claim C8, as stated: on an ok response the promise resolves to the parsed body.  It fails
  for an ok response whose body is not JSON (an empty 204 response): the promise is
  rejected.
\<close>

theorem makeRequest_ok_body_not_json_counterexample:
  "fst (makeRequest
      (\<lambda>url opts. Inr \<lparr>ok = True, status = 204,
          json = (Inl (SyntaxError ''Unexpected end of JSON input'') :: js_error + unit)\<rparr>)
      ''/api/tasks'' Map.empty (fresh_world []))
     = Rejected (SyntaxError ''Unexpected end of JSON input'')"
  by (simp add: makeRequest_def)

text \<open>
  Claim C8, amended.  When \<open>fetch\<close> rejects, and when the response is not ok, the promise
  of \<open>makeRequest\<close> is rejected (with the error of \<open>fetch\<close>, or with the HTTP error naming
  the status) and the danger notification \<open>Request failed. Please try again.\<close> has been
  added to the document; on an ok response whose body parses, the promise resolves to the
  parsed body and the page is unchanged; on an ok response whose body does not parse, the
  promise is rejected with the parse error after the same notification.
\<close>

theorem makeRequest_outcomes:
  "(fetch url (defaultOptions ++ opts) = Inl e \<longrightarrow>
      fst (makeRequest fetch url opts w) = Rejected e \<and>
      body (snd (makeRequest fetch url opts w)) = body w @
        [Alert (next_node w) ''alert alert-danger alert-dismissible fade show position-fixed''
           ''Request failed. Please try again.'']) \<and>
   (fetch url (defaultOptions ++ opts) = Inr r \<and> \<not> ok r \<longrightarrow>
      fst (makeRequest fetch url opts w) =
        Rejected (Error (''HTTP error! status: '' @ number_to_string (int (status r)))) \<and>
      body (snd (makeRequest fetch url opts w)) = body w @
        [Alert (next_node w) ''alert alert-danger alert-dismissible fade show position-fixed''
           ''Request failed. Please try again.'']) \<and>
   (fetch url (defaultOptions ++ opts) = Inr r \<and> ok r \<and> json r = Inr v \<longrightarrow>
      makeRequest fetch url opts w = (Resolved v, w)) \<and>
   (fetch url (defaultOptions ++ opts) = Inr r \<and> ok r \<and> json r = Inl e \<longrightarrow>
      fst (makeRequest fetch url opts w) = Rejected e \<and>
      body (snd (makeRequest fetch url opts w)) = body w @
        [Alert (next_node w) ''alert alert-danger alert-dismissible fade show position-fixed''
           ''Request failed. Please try again.''])"
  by (simp add: makeRequest_def showNotification_body)

theorem makeRequest_outcomes_witness:
  "fst (makeRequest (\<lambda>url opts. if url = ''/down'' then Inl (TypeError ''Failed to fetch'')
          else Inr \<lparr>ok = (url = ''/ok''), status = (if url = ''/ok'' then 200 else 404),
                    json = (Inr 7 :: js_error + nat)\<rparr>)
        ''/down'' Map.empty (fresh_world [])) = Rejected (TypeError ''Failed to fetch'') \<and>
   fst (makeRequest (\<lambda>url opts. if url = ''/down'' then Inl (TypeError ''Failed to fetch'')
          else Inr \<lparr>ok = (url = ''/ok''), status = (if url = ''/ok'' then 200 else 404),
                    json = (Inr 7 :: js_error + nat)\<rparr>)
        ''/missing'' Map.empty (fresh_world [])) = Rejected (Error ''HTTP error! status: 404'') \<and>
   makeRequest (\<lambda>url opts. if url = ''/down'' then Inl (TypeError ''Failed to fetch'')
          else Inr \<lparr>ok = (url = ''/ok''), status = (if url = ''/ok'' then 200 else 404),
                    json = (Inr 7 :: js_error + nat)\<rparr>)
        ''/ok'' Map.empty (fresh_world []) = (Resolved 7, fresh_world []) \<and>
   fst (makeRequest (\<lambda>url opts. Inr \<lparr>ok = True, status = 200,
                    json = (Inl (SyntaxError ''bad'') :: js_error + nat)\<rparr>)
        ''/ok'' Map.empty (fresh_world [])) = Rejected (SyntaxError ''bad'')"
proof -
  let ?fetch = "\<lambda>url (opts :: options). if url = ''/down'' then Inl (TypeError ''Failed to fetch'')
          else Inr \<lparr>ok = (url = ''/ok''), status = (if url = ''/ok'' then 200 else 404),
                    json = (Inr 7 :: js_error + nat)\<rparr>"
  let ?bad = "\<lambda>(url :: string) (opts :: options). (Inr \<lparr>ok = True, status = 200,
                    json = (Inl (SyntaxError ''bad'') :: js_error + nat)\<rparr> :: js_error + nat response)"
  have 1: "fst (makeRequest ?fetch ''/down'' Map.empty (fresh_world []))
      = Rejected (TypeError ''Failed to fetch'')"
    using makeRequest_outcomes [of ?fetch "''/down''" Map.empty "TypeError ''Failed to fetch''"
        "fresh_world []"]
    by simp
  have 2: "fst (makeRequest ?fetch ''/missing'' Map.empty (fresh_world []))
      = Rejected (Error ''HTTP error! status: 404'')"
    using makeRequest_outcomes [of ?fetch "''/missing''" Map.empty _ "fresh_world []"
        "\<lparr>ok = False, status = 404, json = Inr 7\<rparr>"]
    by (simp add: show_number)
  have 3: "makeRequest ?fetch ''/ok'' Map.empty (fresh_world []) = (Resolved 7, fresh_world [])"
    using makeRequest_outcomes [of ?fetch "''/ok''" Map.empty _ "fresh_world []"
        "\<lparr>ok = True, status = 200, json = Inr 7\<rparr>" 7]
    by simp
  have 4: "fst (makeRequest ?bad ''/ok'' Map.empty (fresh_world [])) = Rejected (SyntaxError ''bad'')"
    using makeRequest_outcomes [of ?bad "''/ok''" Map.empty "SyntaxError ''bad''" "fresh_world []"
        "\<lparr>ok = True, status = 200, json = Inl (SyntaxError ''bad'')\<rparr>"]
    by simp
  from 1 2 3 4 show ?thesis by simp
qed

text \<open>
  Claim C9 says that the legacy copy shows a warning when the copy command fails.  The code
  shows the warning only when \<^verbatim>\<open>execCommand\<close> throws: without the clipboard API and with a
  copy command that returns \<^verbatim>\<open>false\<close>, the only notification is the success one.
\<close>

theorem copy_command_false_reports_success:
  "body (copyToClipboard \<lparr>clipboard = None, execCommand_copy = Returned False\<rparr> ''secret''
      (fresh_world []))
     = [Alert 1 ''alert alert-success alert-dismissible fade show position-fixed''
          ''Copied to clipboard!'']"
  by (simp add: copyToClipboard_def fallbackCopyTextToClipboard_def showNotification_body
      showNotification_console fresh_world_def)

text \<open>
  What the code does do: the success notification on the primary path, and on the legacy
  path the success notification whenever the copy command returns and the warning when it
  throws.
\<close>

lemma copyToClipboard_toasts:
  "(clipboard b = Some (Inr ()) \<longrightarrow>
      body (copyToClipboard b txt w) = body w @
        [Alert (next_node w) ''alert alert-success alert-dismissible fade show position-fixed''
           ''Copied to clipboard!'']) \<and>
   (clipboard b \<noteq> Some (Inr ()) \<and> execCommand_copy b = Returned r \<longrightarrow>
      Alert (Suc (next_node w)) ''alert alert-success alert-dismissible fade show position-fixed''
           ''Copied to clipboard!'' \<in> set (body (copyToClipboard b txt w))) \<and>
   (clipboard b \<noteq> Some (Inr ()) \<and> execCommand_copy b = Threw e \<longrightarrow>
      Alert (Suc (next_node w)) ''alert alert-warning alert-dismissible fade show position-fixed''
           ''Copy failed. Please copy manually.'' \<in> set (body (copyToClipboard b txt w)))"
  by (auto simp: copyToClipboard_def fallbackCopyTextToClipboard_def showNotification_body
      showNotification_console Let_def split: option.splits sum.splits)


section \<open>Properties of debounce\<close>

lemma debounced_call_first:
  assumes "timeouts s = []" and "now s \<le> fst c"
  shows "timeouts (debounced_call wait False c s) = [Timer (next_handle s) (fst c + wait) (snd c)] \<and>
    timeout (debounced_call wait False c s) = Some (next_handle s) \<and>
    now (debounced_call wait False c s) = fst c \<and>
    calls (debounced_call wait False c s) = calls s"
proof -
  have "advance (later False) (fst c) s = s\<lparr>now := fst c\<rparr>"
    using advance_not_due [of s "fst c" "later False"] assms by (simp add: max_def)
  then show ?thesis
    using assms
    by (simp add: debounced_call_def executedFunction_def clearTimeout_def setTimeout_def Let_def
        split: option.splits)
qed

lemma debounced_call_pending:
  assumes "timeouts s = [Timer h d a]" and "timeout s = Some h" and "now s \<le> fst c"
    and "fst c < d"
  shows "timeouts (debounced_call wait False c s) = [Timer (next_handle s) (fst c + wait) (snd c)] \<and>
    timeout (debounced_call wait False c s) = Some (next_handle s) \<and>
    now (debounced_call wait False c s) = fst c \<and>
    calls (debounced_call wait False c s) = calls s"
proof -
  have "advance (later False) (fst c) s = s\<lparr>now := fst c\<rparr>"
    using advance_not_due [of s "fst c" "later False"] assms by (simp add: max_def)
  then show ?thesis
    using assms
    by (simp add: debounced_call_def executedFunction_def clearTimeout_def setTimeout_def Let_def)
qed

lemma debounced_calls_burst:
  assumes "timeouts s = [Timer h (t + wait) a]" and "timeout s = Some h" and "now s = t"
    and "burst wait t cs"
  shows "\<exists>h'. timeouts (debounced_calls wait False cs s) =
        [Timer h' (fst (last ((t, a) # cs)) + wait) (snd (last ((t, a) # cs)))] \<and>
      timeout (debounced_calls wait False cs s) = Some h' \<and>
      now (debounced_calls wait False cs s) = fst (last ((t, a) # cs)) \<and>
      calls (debounced_calls wait False cs s) = calls s"
  using assms
proof (induction cs arbitrary: s h t a)
  case Nil
  then show ?case by (simp add: debounced_calls_def)
next
  case (Cons c cs)
  let ?s = "debounced_call wait False c s"
  from Cons.prems have c: "t \<le> fst c" "fst c < t + wait" "burst wait (fst c) cs"
    by simp_all
  have step: "timeouts ?s = [Timer (next_handle s) (fst c + wait) (snd c)] \<and>
    timeout ?s = Some (next_handle s) \<and> now ?s = fst c \<and> calls ?s = calls s"
    using debounced_call_pending [of s h "t + wait" a c wait] Cons.prems(1,2,3) c(1,2) by simp
  from Cons.IH [of ?s "next_handle s" "fst c" "snd c"] step c(3)
  obtain h' where "timeouts (debounced_calls wait False cs ?s) =
        [Timer h' (fst (last ((fst c, snd c) # cs)) + wait) (snd (last ((fst c, snd c) # cs)))]"
      "timeout (debounced_calls wait False cs ?s) = Some h'"
      "now (debounced_calls wait False cs ?s) = fst (last ((fst c, snd c) # cs))"
      "calls (debounced_calls wait False cs ?s) = calls ?s"
    by blast
  with step show ?case
    by (simp add: debounced_calls_def)
qed

lemma later_fires:
  assumes "timeouts s = [Timer h d a]" and "now s \<le> d"
  shows "calls (advance (later False) T s) = (if d \<le> T then calls s @ [(d, a)] else calls s)"
    and "d \<le> T \<Longrightarrow> timeouts (advance (later False) T s) = []"
proof -
  show "calls (advance (later False) T s) = (if d \<le> T then calls s @ [(d, a)] else calls s)"
  proof (cases "d \<le> T")
    case True
    then show ?thesis
      using assms by (simp add: advance_single_due later_def Let_def max_def)
  next
    case False
    then show ?thesis
      using advance_not_due [of s T "later False"] assms by simp
  qed
  show "d \<le> T \<Longrightarrow> timeouts (advance (later False) T s) = []"
    using assms by (simp add: advance_single_due later_def Let_def)
qed

text \<open>
  Claim C6.  Take a debounced wrapper with a falsy \<^verbatim>\<open>immediate\<close> and no timeout pending,
  and a burst of calls \<open>c # cs\<close>: each call no earlier than the one before and less than
  \<open>wait\<close> after it.  Then, whatever time \<open>T\<close> the clock reaches afterwards, \<^verbatim>\<open>func\<close> has
  been called for the burst not at all before \<open>wait\<close> has passed since the last call of the
  burst, and exactly once from then on: at the time of the last call plus \<open>wait\<close>, with
  the arguments of the last call; and no timeout is left that could call it again.
\<close>

theorem debounce_burst_once:
  assumes "timeouts s = []" and "now s \<le> fst c" and "burst wait (fst c) cs"
  shows "calls (advance (later False) T (debounced_calls wait False (c # cs) s)) =
      (if fst (last (c # cs)) + wait \<le> T
       then calls s @ [(fst (last (c # cs)) + wait, snd (last (c # cs)))]
       else calls s) \<and>
    (fst (last (c # cs)) + wait \<le> T \<longrightarrow>
       timeouts (advance (later False) T (debounced_calls wait False (c # cs) s)) = [])"
proof -
  let ?s1 = "debounced_call wait False c s"
  let ?s = "debounced_calls wait False (c # cs) s"
  have first: "timeouts ?s1 = [Timer (next_handle s) (fst c + wait) (snd c)] \<and>
      timeout ?s1 = Some (next_handle s) \<and> now ?s1 = fst c \<and> calls ?s1 = calls s"
    using debounced_call_first [of s c wait] assms(1,2) by simp
  have s: "?s = debounced_calls wait False cs ?s1"
    by (simp add: debounced_calls_def)
  obtain h' where pend: "timeouts ?s =
        [Timer h' (fst (last ((fst c, snd c) # cs)) + wait) (snd (last ((fst c, snd c) # cs)))]"
      "now ?s = fst (last ((fst c, snd c) # cs))"
      "calls ?s = calls s"
    using debounced_calls_burst [of ?s1 "next_handle s" "fst c" wait "snd c" cs] first assms(3) s
    by auto
  have nw: "now ?s \<le> fst (last (c # cs)) + wait"
    using pend(2) by simp
  have pd: "timeouts ?s = [Timer h' (fst (last (c # cs)) + wait) (snd (last (c # cs)))]"
    using pend(1) by simp
  show ?thesis
    using later_fires [OF pd nw, of T] pend(3) by simp
qed

theorem debounce_burst_once_witness:
  "calls (advance (later False) 1000
      (debounced_calls 100 False [(0, ''a''), (50, ''b''), (149, ''c'')] (debounce 0)))
     = [(249, ''c'')]"
  using debounce_burst_once [of "debounce 0" "(0, ''a'')" 100 "[(50, ''b''), (149, ''c'')]" 1000]
  by (simp add: debounce_def)

section \<open>Properties of throttle\<close>

lemma throttle_inv_fresh: "throttle_inv limit (throttle t0)"
  by (simp add: throttle_inv_def throttle_def)

lemma advance_release_free:
  assumes "throttle_inv limit s" and "\<not> inThrottle s"
  shows "advance release t s = s\<lparr>now := max (now s) t\<rparr>"
  using assms advance_not_due [of s t release] by (simp add: throttle_inv_def)

lemma advance_release_held:
  assumes "timeouts s = [Timer h d ()]" and "t < d"
  shows "advance release t s = s\<lparr>now := max (now s) t\<rparr>"
  using assms advance_not_due [of s t release] by simp

lemma advance_release_due:
  assumes "timeouts s = [Timer h d ()]" and "d \<le> t"
  shows "advance release t s = s\<lparr>timeouts := [], inThrottle := False, now := max (max (now s) d) t\<rparr>"
  using assms by (simp add: advance_single_due release_def Let_def)

lemma throttle_inv_advance:
  assumes "throttle_inv limit s"
  shows "throttle_inv limit (advance release t s)"
proof (cases "inThrottle s")
  case False
  then show ?thesis
    using assms advance_release_free [OF assms False, of t]
    by (auto simp: throttle_inv_def max_def)
next
  case True
  with assms obtain h d where hx: "timeouts s = [Timer h (d + limit) ()]"
      "d \<in> fst ` set (invocations s)" "\<forall>y \<in> set (invocations s). fst y \<le> d"
    and srt: "sorted_wrt (\<lambda>x y. fst x + limit \<le> fst y) (invocations s)"
    by (auto simp: throttle_inv_def)
  show ?thesis
  proof (cases "d + limit \<le> t")
    case le: True
    have "\<forall>y \<in> set (invocations s). fst y + limit \<le> max (max (now s) (d + limit)) t"
      using hx(3) le by fastforce
    then show ?thesis
      using advance_release_due [OF hx(1) le] srt by (simp add: throttle_inv_def)
  next
    case gt: False
    then have "advance release t s = s\<lparr>now := max (now s) t\<rparr>"
      using advance_release_held [OF hx(1), of t] by simp
    then show ?thesis
      using True hx srt by (auto simp: throttle_inv_def)
  qed
qed

lemma throttled_function_Returns:
  "throttled_function limit a Returns s =
     (False,
      if \<not> inThrottle s
      then s\<lparr>invocations := invocations s @ [(now s, a)], inThrottle := True,
             timeouts := timeouts s @ [Timer (next_handle s) (now s + limit) ()],
             next_handle := Suc (next_handle s)\<rparr>
      else s)"
  by (simp add: throttled_function.simps setTimeout_def)

lemma throttle_inv_function:
  assumes "throttle_inv limit s"
  shows "throttle_inv limit (snd (throttled_function limit a Returns s))"
proof (cases "inThrottle s")
  case True
  then show ?thesis using assms by (simp add: throttled_function_Returns)
next
  case False
  with assms have old: "\<forall>y \<in> set (invocations s). fst y + limit \<le> now s"
    and srt: "sorted_wrt (\<lambda>x y. fst x + limit \<le> fst y) (invocations s)"
    and emp: "timeouts s = []"
    by (auto simp: throttle_inv_def)
  have s': "snd (throttled_function limit a Returns s) =
      s\<lparr>invocations := invocations s @ [(now s, a)], inThrottle := True,
        timeouts := [Timer (next_handle s) (now s + limit) ()],
        next_handle := Suc (next_handle s)\<rparr>"
    using False emp by (simp add: throttled_function_Returns)
  have le: "\<forall>y \<in> set (invocations s). fst y \<le> now s"
    using old by fastforce
  have "sorted_wrt (\<lambda>x y. fst x + limit \<le> fst y) (invocations s @ [(now s, a)])"
    using srt old by (simp add: sorted_wrt_append)
  moreover have "\<exists>h d. [Timer (next_handle s) (now s + limit) ()] = [Timer h (d + limit) ()] \<and>
      d \<in> fst ` set (invocations s @ [(now s, a)]) \<and>
      (\<forall>y \<in> set (invocations s @ [(now s, a)]). fst y \<le> d)"
    using le by (intro exI [of _ "next_handle s"] exI [of _ "now s"]) simp
  ultimately show ?thesis
    unfolding s' by (simp add: throttle_inv_def)
qed

lemma throttle_inv_call:
  assumes "throttle_inv limit s" and "func_run c = Returns"
  shows "throttle_inv limit (throttled_call limit c s)"
  unfolding throttled_call_def assms(2)
  by (intro throttle_inv_function throttle_inv_advance assms(1))

lemma throttle_inv_fold:
  "throttle_inv limit s \<Longrightarrow> \<forall>c \<in> set cs. func_run c = Returns \<Longrightarrow>
   throttle_inv limit (fold (throttled_call limit) cs s)"
  by (induction cs arbitrary: s) (simp_all add: throttle_inv_call)

lemma throttle_inv_calls:
  "\<forall>c \<in> set cs. func_run c = Returns \<Longrightarrow> throttle_inv limit (throttled_calls limit cs (throttle t0))"
  unfolding throttled_calls_def by (rule throttle_inv_fold [OF throttle_inv_fresh])

lemma advance_release_fields:
  assumes "throttle_inv limit s"
  shows "invocations (advance release t s) = invocations s \<and>
    now (advance release t s) = max (now s) t"
proof (cases "inThrottle s")
  case False
  then show ?thesis
    using advance_release_free [OF assms False, of t] by simp
next
  case True
  with assms obtain h d where hx: "timeouts s = [Timer h (d + limit) ()]"
    by (auto simp: throttle_inv_def)
  show ?thesis
  proof (cases "d + limit \<le> t")
    case True
    then show ?thesis
      using advance_release_due [OF hx, of t] by (simp add: max_def)
  next
    case False
    then show ?thesis
      using advance_release_held [OF hx, of t] by simp
  qed
qed

lemma throttled_call_open:
  assumes "throttle_inv limit s" and "now s \<le> call_time c" and "func_run c = Returns"
    and "\<forall>x \<in> set (invocations s). fst x + limit \<le> call_time c"
  shows "invocations (throttled_call limit c s) = invocations s @ [(call_time c, call_args c)]"
proof -
  let ?v = "advance release (call_time c) s"
  have nv: "invocations ?v = invocations s \<and> now ?v = call_time c"
    using advance_release_fields [OF assms(1), of "call_time c"] assms(2) by (simp add: max_def)
  have "\<not> inThrottle ?v"
  proof (cases "inThrottle s")
    case False
    then show ?thesis
      using advance_release_free [OF assms(1) False, of "call_time c"] by simp
  next
    case True
    with assms(1) obtain h d where hx: "timeouts s = [Timer h (d + limit) ()]"
      "d \<in> fst ` set (invocations s)"
      by (auto simp: throttle_inv_def)
    with assms(4) have "d + limit \<le> call_time c" by auto
    then show ?thesis
      using advance_release_due [OF hx(1), of "call_time c"] by simp
  qed
  with nv show ?thesis
    by (simp add: throttled_call_def throttled_function_Returns assms(3))
qed

lemma throttled_call_closed:
  assumes "throttle_inv limit s" and "now s \<le> call_time c"
    and "\<exists>x \<in> set (invocations s). call_time c < fst x + limit"
  shows "throttled_call limit c s = advance release (call_time c) s"
    and "invocations (throttled_call limit c s) = invocations s"
proof -
  let ?v = "advance release (call_time c) s"
  have inv: "throttle_inv limit ?v"
    by (rule throttle_inv_advance [OF assms(1)])
  have nv: "invocations ?v = invocations s \<and> now ?v = call_time c"
    using advance_release_fields [OF assms(1), of "call_time c"] assms(2) by (simp add: max_def)
  have "inThrottle ?v"
  proof (rule ccontr)
    assume "\<not> inThrottle ?v"
    with inv nv have "\<forall>y \<in> set (invocations s). fst y + limit \<le> call_time c"
      by (simp add: throttle_inv_def)
    then show False using assms(3) by fastforce
  qed
  then show "throttled_call limit c s = advance release (call_time c) s"
    by (simp add: throttled_call_def throttled_function.simps)
  then show "invocations (throttled_call limit c s) = invocations s"
    using nv by simp
qed



lemmas throttle_eval = throttled_calls_def throttled_call_def throttled_function.simps throttle_def
  advance_def release_def setTimeout_def Let_def


end
